theory Spec2Isabelle
  imports Complex_Main "HOL-Library.Log_Nat"
begin

section \<open>The option model of main.cpp\<close>

text \<open>
  The C++ type \<open>double\<close> is modelled by \<^typ>\<open>real\<close>: arithmetic is exact, the
  rounding of IEEE 754 is not part of this model. The premium drift is modelled a second
  time with that rounding (the definitions named \<open>binary64\<close> below), for the statement
  that compounds the drift over many updates, where the rounding decides.
  \<open>std::string\<close> is \<^typ>\<open>string\<close>.

  The abstract class \<open>Option\<close> has exactly two subclasses, \<open>CallOption\<close> and
  \<open>PutOption\<close>, which add no fields. An object is therefore one of two constructors
  carrying the three fields of the base class, in the order of the C++ constructor:
  \<open>strikePrice\<close>, \<open>premium\<close>, \<open>expiryDate\<close>. Virtual dispatch is pattern matching
  on the constructor.
\<close>

datatype Option =
  CallOption real real string
| PutOption real real string

fun getStrikePrice :: "Option \<Rightarrow> real" where
  "getStrikePrice (CallOption strike prem expiry) = strike"
| "getStrikePrice (PutOption strike prem expiry) = strike"

fun getPremium :: "Option \<Rightarrow> real" where
  "getPremium (CallOption strike prem expiry) = prem"
| "getPremium (PutOption strike prem expiry) = prem"

fun getExpiryDate :: "Option \<Rightarrow> string" where
  "getExpiryDate (CallOption strike prem expiry) = expiry"
| "getExpiryDate (PutOption strike prem expiry) = expiry"

text \<open>\<open>setPremium\<close> assigns the field \<open>premium\<close> and nothing else.\<close>

fun setPremium :: "Option \<Rightarrow> real \<Rightarrow> Option" where
  "setPremium (CallOption strike old expiry) prem = CallOption strike prem expiry"
| "setPremium (PutOption strike old expiry) prem = PutOption strike prem expiry"

text \<open>
  \<open>std::max(a, b)\<close> is \<open>(a < b) ? b : a\<close>.
\<close>

definition std_max :: "real \<Rightarrow> real \<Rightarrow> real" where
  "std_max a b = (if a < b then b else a)"

text \<open>
  \<open>calculatePayoff\<close> is a \<open>const\<close> member function that only reads the fields
  and returns a number: the model is a function from the object and the market price
  to the payoff, with no state in its result.
\<close>

fun calculatePayoff :: "Option \<Rightarrow> real \<Rightarrow> real" where
  "calculatePayoff (CallOption strikePrice premium expiryDate) marketPrice =
     std_max 0 (marketPrice - strikePrice) - premium"
| "calculatePayoff (PutOption strikePrice premium expiryDate) marketPrice =
     std_max 0 (strikePrice - marketPrice) - premium"

subsection \<open>Output\<close>

text \<open>
  What is written to \<open>std::cout\<close> is a list of the items inserted with \<open><<\<close>:
  a string, a \<open>double\<close> (its decimal formatting is not modelled) or \<open>std::endl\<close>.
\<close>

datatype cout_item = Str string | Dbl real | Endl

fun displayInfo :: "Option \<Rightarrow> cout_item list" where
  "displayInfo (CallOption strikePrice premium expiryDate) =
     [Str ''Call Option - Strike Price: '', Dbl strikePrice,
      Str '', Premium: '', Dbl premium,
      Str '', Expiry: '', Str expiryDate, Endl]"
| "displayInfo (PutOption strikePrice premium expiryDate) =
     [Str ''Put Option - Strike Price: '', Dbl strikePrice,
      Str '', Premium: '', Dbl premium,
      Str '', Expiry: '', Str expiryDate, Endl]"

subsection \<open>The factory\<close>

text \<open>
  \<open>createOption\<close> returns a \<open>std::unique_ptr<Option>\<close>; the null pointer is
  \<^term>\<open>None\<close>.
\<close>

definition createOption :: "string \<Rightarrow> real \<Rightarrow> real \<Rightarrow> string \<Rightarrow> Option option" where
  "createOption type strike prem expiry =
     (if type = ''Call'' then Some (CallOption strike prem expiry)
      else if type = ''Put'' then Some (PutOption strike prem expiry)
      else None)"

subsection \<open>The option chain and its observers\<close>

text \<open>
  An \<open>Observer*\<close> is the address of an observer object. The one concrete observer
  class of the program is \<open>RealTimeDisplay\<close>, and the program has one chain, so
  every registered observer is a display of the chain it is registered with.

  The vector \<open>options\<close> holds the contracts the pointers own. \<open>addOption\<close> is
  called with the pointers the factory made from the literal tags \<open>"Call"\<close> and
  \<open>"Put"\<close> (in \<open>main\<close>) and behind the null test of \<open>TradeCommand::execute\<close>,
  so the entries are objects, not null pointers.
\<close>

type_synonym Observer = nat

record OptionChain =
  options :: "Option list"
  observers :: "Observer list"

definition addOption :: "OptionChain \<Rightarrow> Option \<Rightarrow> OptionChain" where
  "addOption chain option = chain\<lparr>options := options chain @ [option]\<rparr>"

definition registerObserver :: "OptionChain \<Rightarrow> Observer \<Rightarrow> OptionChain" where
  "registerObserver chain observer = chain\<lparr>observers := observers chain @ [observer]\<rparr>"

text \<open>\<open>displaySingleQuote\<close> writes the first option, and nothing for an empty vector.\<close>

definition displaySingleQuote :: "OptionChain \<Rightarrow> cout_item list" where
  "displaySingleQuote chain =
     (if options chain \<noteq> [] then displayInfo (options chain ! 0) else [])"

text \<open>The macros for the terminal; \<open>\033\<close> is the character \<open>0x1B\<close>.\<close>

definition CLEAR_SCREEN :: string where
  "CLEAR_SCREEN = CHR 0x1B # ''[2J''"

definition MOVE_CURSOR :: "string \<Rightarrow> string \<Rightarrow> string" where
  "MOVE_CURSOR x y = CHR 0x1B # ''['' @ x @ '';'' @ y @ ''H''"

definition CLEAR_LINE :: string where
  "CLEAR_LINE = CHR 0x1B # ''[K''"

text \<open>
  \<open>RealTimeDisplay::update\<close> takes no argument; it reads the chain through its
  pointer and writes to \<open>std::cout\<close>. It leaves the chain as it is.
\<close>

definition update :: "OptionChain \<Rightarrow> cout_item list" where
  "update chain =
     [Str (MOVE_CURSOR ''1'' ''1''), Str CLEAR_SCREEN,
      Str (''Latest Option Quote:'' @ [CHR 0x0A])]
     @ displaySingleQuote chain
     @ [Str (''--------------------------------'' @ [CHR 0x0A]),
        Str (MOVE_CURSOR ''15'' ''1'')]"

text \<open>
  One call \<open>observer->update()\<close>: the observer it was made on and what that call
  wrote.
\<close>

datatype update_call = Update Observer "cout_item list"

fun notify_loop :: "Observer list \<Rightarrow> OptionChain \<Rightarrow> update_call list" where
  "notify_loop [] chain = []"
| "notify_loop (observer # rest) chain =
     Update observer (update chain) # notify_loop rest chain"

definition notifyObservers :: "OptionChain \<Rightarrow> update_call list" where
  "notifyObservers chain = notify_loop (observers chain) chain"

subsection \<open>The premium drift\<close>

text \<open>
  The state behind \<open>rand()\<close> is the sequence of the values the coming calls return.
  Each is between 0 and \<open>RAND_MAX\<close>, hence a natural number; a call returns the first
  one and leaves the rest.
\<close>

type_synonym rand_state = "nat \<Rightarrow> nat"

definition rand :: "rand_state \<Rightarrow> int \<times> rand_state" where
  "rand g = (int (g 0), \<lambda>i. g (Suc i))"

text \<open>The operator \<open>%\<close> of C++ on \<open>int\<close>: the remainder of the truncating division.\<close>

definition c_rem :: "int \<Rightarrow> int \<Rightarrow> int" where
  "c_rem a b = sgn a * (\<bar>a\<bar> mod \<bar>b\<bar>)"

text \<open>
  The loop of \<open>updateOptionPrices\<close> over the vector: one call of \<open>rand()\<close> for each
  option, in the order of the vector.
\<close>

fun updateOptionPrices_loop :: "Option list \<Rightarrow> rand_state \<Rightarrow> Option list \<times> rand_state" where
  "updateOptionPrices_loop [] g = ([], g)"
| "updateOptionPrices_loop (option # rest) g =
     (let (r, g') = rand g;
          newPremium = getPremium option * (1.0 + real_of_int (c_rem r 10 - 5) / 100.0);
          option' = setPremium option newPremium;
          (rest', g'') = updateOptionPrices_loop rest g'
      in (option' # rest', g''))"

text \<open>
  \<open>updateOptionPrices\<close> returns the chain, the state of \<open>rand()\<close> and the calls
  \<open>notifyObservers\<close> made, which it makes after the loop.
\<close>

definition updateOptionPrices ::
  "OptionChain \<Rightarrow> rand_state \<Rightarrow> OptionChain \<times> rand_state \<times> update_call list" where
  "updateOptionPrices chain g =
     (let (opts, g') = updateOptionPrices_loop (options chain) g;
          chain' = chain\<lparr>options := opts\<rparr>
      in (chain', g', notifyObservers chain'))"

definition updateMarket ::
  "OptionChain \<Rightarrow> rand_state \<Rightarrow> OptionChain \<times> rand_state \<times> update_call list" where
  "updateMarket chain g = updateOptionPrices chain g"

text \<open>
  The scenario "call the update \<open>n\<close> times": \<open>n\<close> calls of \<open>updateMarket\<close> one after
  the other, each starting from the chain and the state of \<open>rand()\<close> the one before
  left.
\<close>

fun updateMarket_times ::
  "nat \<Rightarrow> OptionChain \<Rightarrow> rand_state \<Rightarrow> OptionChain \<times> rand_state \<times> update_call list" where
  "updateMarket_times 0 chain g = (chain, g, [])"
| "updateMarket_times (Suc n) chain g =
     (let (chain1, g1, calls1) = updateMarket chain g;
          (chain2, g2, calls2) = updateMarket_times n chain1 g1
      in (chain2, g2, calls1 @ calls2))"

subsection \<open>The premium drift in binary64 arithmetic\<close>

text \<open>
  A \<open>double\<close> is an IEEE 754 binary64 number: a significand of 53 bits and a power
  of two that is at least \<open>2 ^ -1074\<close>. Each arithmetic operation returns the binary64
  number nearest to the exact result, the one with the even significand when two are
  equally near.

  \<open>round_even s\<close> is the integer nearest to \<open>s\<close>, the even one at a tie.
\<close>

definition round_even :: "real \<Rightarrow> int" where
  "round_even s =
     (let f = \<lfloor>s\<rfloor>; d = s - of_int f
      in if d < 1 / 2 then f else if 1 / 2 < d then f + 1
         else if even f then f else f + 1)"

text \<open>
  \<open>ilog2 y\<close> is the integer \<open>k\<close> with \<open>2 ^ k \<le> y < 2 ^ (k + 1)\<close>, for \<open>y > 0\<close>,
  computed from the number of bits of an integer.
\<close>

definition ilog2 :: "real \<Rightarrow> int" where
  "ilog2 y = (if 1 \<le> y then bitlen \<lfloor>y\<rfloor> - 1 else - bitlen (\<lceil>1 / y\<rceil> - 1))"

text \<open>
  \<open>binary64 x\<close> is \<open>x\<close> rounded to binary64: the significand is \<open>\<bar>x\<bar>\<close> scaled to
  53 bits before the point (or by \<open>2 ^ 1074\<close> when \<open>x\<close> is that small) and rounded to
  an integer. A result of magnitude \<open>2 ^ 1024\<close> or more, which the format replaces by
  infinity, is left as it is; no value below comes near it.
\<close>

definition binary64 :: "real \<Rightarrow> real" where
  "binary64 x =
     (if x = 0 then 0
      else let e = max (ilog2 \<bar>x\<bar> - 52) (- 1074)
           in sgn x * of_int (round_even (\<bar>x\<bar> / 2 powi e)) * 2 powi e)"

text \<open>
  The relative error of one rounding is at most \<open>2 ^ -53\<close>.
\<close>

definition roundoff :: real where
  "roundoff = 1 / 2 ^ 53"

text \<open>
  The right-hand side of line 147,
  \<open>option->getPremium() * (1.0 + (rand() % 10 - 5) / 100.0)\<close>, for the premium \<open>p\<close> and
  the value \<open>r\<close> of \<open>rand()\<close>. The conversion of the \<open>int\<close> to \<open>double\<close> is exact,
  as are \<open>100.0\<close> and \<open>1.0\<close>; the division, the addition and the multiplication each
  round.
\<close>

definition newPremium_binary64 :: "real \<Rightarrow> int \<Rightarrow> real" where
  "newPremium_binary64 p r =
     binary64 (p * binary64 (1.0 + binary64 (real_of_int (c_rem r 10 - 5) / 100.0)))"

text \<open>
  The loop, the update and the scenario of \<open>n\<close> updates, as above, with the premium
  computed in binary64.
\<close>

fun updateOptionPrices_loop_binary64 ::
  "Option list \<Rightarrow> rand_state \<Rightarrow> Option list \<times> rand_state" where
  "updateOptionPrices_loop_binary64 [] g = ([], g)"
| "updateOptionPrices_loop_binary64 (option # rest) g =
     (let (r, g') = rand g;
          newPremium = newPremium_binary64 (getPremium option) r;
          option' = setPremium option newPremium;
          (rest', g'') = updateOptionPrices_loop_binary64 rest g'
      in (option' # rest', g''))"

definition updateOptionPrices_binary64 ::
  "OptionChain \<Rightarrow> rand_state \<Rightarrow> OptionChain \<times> rand_state \<times> update_call list" where
  "updateOptionPrices_binary64 chain g =
     (let (opts, g') = updateOptionPrices_loop_binary64 (options chain) g;
          chain' = chain\<lparr>options := opts\<rparr>
      in (chain', g', notifyObservers chain'))"

definition updateMarket_binary64 ::
  "OptionChain \<Rightarrow> rand_state \<Rightarrow> OptionChain \<times> rand_state \<times> update_call list" where
  "updateMarket_binary64 chain g = updateOptionPrices_binary64 chain g"

fun updateMarket_times_binary64 ::
  "nat \<Rightarrow> OptionChain \<Rightarrow> rand_state \<Rightarrow> OptionChain \<times> rand_state \<times> update_call list" where
  "updateMarket_times_binary64 0 chain g = (chain, g, [])"
| "updateMarket_times_binary64 (Suc n) chain g =
     (let (chain1, g1, calls1) = updateMarket_binary64 chain g;
          (chain2, g2, calls2) = updateMarket_times_binary64 n chain1 g1
      in (chain2, g2, calls1 @ calls2))"

text \<open>
  The premium after \<open>n\<close> updates during which every call of \<open>rand()\<close> returns
  \<open>r\<close>.
\<close>

fun premium_after :: "nat \<Rightarrow> int \<Rightarrow> real \<Rightarrow> real" where
  "premium_after 0 r p = p"
| "premium_after (Suc n) r p = premium_after n r (newPremium_binary64 p r)"

subsection \<open>Entering a trade\<close>

text \<open>
  \<open>TradeCommand::execute\<close> reads five values from \<open>std::cin\<close>; they are the
  arguments of the model, as read. It returns the chain and what it wrote.
\<close>

definition execute_prompts :: "cout_item list" where
  "execute_prompts =
     [Endl, Str ''Enter option type (Call/Put): '', Str ''Enter strike price: '',
      Str ''Enter premium: '', Str ''Enter expiry date (YYYY-MM-DD): '',
      Str ''Enter quantity: '']"

definition execute ::
  "OptionChain \<Rightarrow> string \<Rightarrow> real \<Rightarrow> real \<Rightarrow> string \<Rightarrow> int \<Rightarrow> OptionChain \<times> cout_item list" where
  "execute chain optionType strikePrice premium expiry quantity =
     (case createOption optionType strikePrice premium expiry of
        Some option \<Rightarrow>
          (addOption chain option,
           execute_prompts @ [Str ''Trade executed successfully.'', Endl])
      | None \<Rightarrow>
          (chain,
           execute_prompts @ [Str ''Invalid option type. Trade not executed.'', Endl]))"

section \<open>Payoff and factory\<close>

lemma std_max_eq_max: "std_max a b = max a b"
  by (simp add: std_max_def max_def)

text \<open>
  C1. For every strike \<open>K\<close>, premium \<open>P\<close> and market price \<open>M\<close> the payoff of a call is
  \<open>max(0, M - K) - P\<close> and the payoff of a put is \<open>max(0, K - M) - P\<close>. The function is
  pure: it maps the object and the market price to a number and returns no state.
\<close>

theorem calculatePayoff_formula:
  "calculatePayoff (CallOption K P e) M = max 0 (M - K) - P \<and>
   calculatePayoff (PutOption K P e) M = max 0 (K - M) - P"
  by (simp add: std_max_eq_max)

lemma createOption_getters:
  "createOption type strike prem expiry = Some option \<Longrightarrow>
   getStrikePrice option = strike \<and> getPremium option = prem \<and> getExpiryDate option = expiry"
  by (auto simp: createOption_def split: if_splits)

text \<open>
  C2. For every strike, premium and expiry the factory returns a call for the tag
  \<open>"Call"\<close> and a put for the tag \<open>"Put"\<close>, with the strike, premium and expiry it
  was given, and the null pointer for every other tag.
\<close>

theorem createOption_tags:
  "createOption ''Call'' strike prem expiry = Some (CallOption strike prem expiry) \<and>
   createOption ''Put'' strike prem expiry = Some (PutOption strike prem expiry) \<and>
   (type \<noteq> ''Call'' \<and> type \<noteq> ''Put'' \<longrightarrow> createOption type strike prem expiry = None) \<and>
   (\<forall>option. createOption type strike prem expiry = Some option \<longrightarrow>
      getStrikePrice option = strike \<and> getPremium option = prem \<and>
      getExpiryDate option = expiry)"
  using createOption_getters [of type strike prem expiry]
  by (simp add: createOption_def)

text \<open>
  At the tags \<open>"Straddle"\<close> and \<open>"Put"\<close>; the put made from (100, 4) pays 6 at the
  market price 90.
\<close>

theorem createOption_tags_witness:
  "createOption ''Straddle'' 100 5 ''2024-12-31'' = None \<and>
   createOption ''Put'' 100 4 ''2024-12-31'' = Some (PutOption 100 4 ''2024-12-31'') \<and>
   getStrikePrice (PutOption 100 4 ''2024-12-31'') = 100 \<and>
   getPremium (PutOption 100 4 ''2024-12-31'') = 4 \<and>
   getExpiryDate (PutOption 100 4 ''2024-12-31'') = ''2024-12-31'' \<and>
   calculatePayoff (PutOption 100 4 ''2024-12-31'') 90 = 6"
proof -
  have a: "createOption ''Straddle'' 100 5 ''2024-12-31'' = None"
    using createOption_tags [of 100 5 "''2024-12-31''" "''Straddle''"] by simp
  have b: "createOption ''Put'' 100 4 ''2024-12-31'' = Some (PutOption 100 4 ''2024-12-31'')"
    using createOption_tags [of 100 4 "''2024-12-31''" "''Put''"] by simp
  have c: "getStrikePrice (PutOption 100 4 ''2024-12-31'') = 100 \<and>
      getPremium (PutOption 100 4 ''2024-12-31'') = 4 \<and>
      getExpiryDate (PutOption 100 4 ''2024-12-31'') = ''2024-12-31''"
    using createOption_tags [of 100 4 "''2024-12-31''" "''Put''"] b by blast
  have d: "calculatePayoff (PutOption 100 4 ''2024-12-31'') 90 = 6"
    by (simp add: std_max_def)
  from a b c d show ?thesis by blast
qed

section \<open>The loop over the options\<close>

text \<open>
  The drift \<open>rand() % 10 - 5\<close> is an integer from -5 to 4, since \<open>rand()\<close> is not
  negative; the factor \<open>1.0 + drift / 100.0\<close> is between 0.95 and 1.04.
\<close>

lemma c_rem_nat: "c_rem (int v) 10 = int (v mod 10)"
  by (cases "v = 0") (simp_all add: c_rem_def zmod_int)

lemma drift_range: "- 5 \<le> c_rem (int v) 10 - 5 \<and> c_rem (int v) 10 - 5 \<le> 4"
proof -
  have "v mod 10 < 10" by simp
  then show ?thesis unfolding c_rem_nat by linarith
qed

lemma factor_bounds:
  "95 / 100 \<le> 1 + real_of_int (c_rem (int v) 10 - 5) / 100 \<and>
   1 + real_of_int (c_rem (int v) 10 - 5) / 100 \<le> 104 / 100"
proof -
  define r where "r = c_rem (int v) 10 - 5"
  have "- 5 \<le> r" and "r \<le> 4"
    using drift_range [of v] by (simp_all add: r_def)
  then have "- 5 \<le> real_of_int r" and "real_of_int r \<le> 4"
    by linarith+
  then have "95 / 100 \<le> 1 + real_of_int r / 100 \<and> 1 + real_of_int r / 100 \<le> 104 / 100"
    by linarith
  then show ?thesis by (simp only: r_def)
qed

text \<open>
  The loop keeps the length of the vector, replaces the option at index \<open>i\<close> by the
  same option with its premium multiplied by the factor of the \<open>i\<close>-th draw, and
  draws once for each option.
\<close>

lemma loop_length: "length (fst (updateOptionPrices_loop xs g)) = length xs"
  by (induction xs arbitrary: g) (simp_all add: rand_def split_beta Let_def)

lemma loop_rand: "snd (updateOptionPrices_loop xs g) = (\<lambda>i. g (i + length xs))"
  by (induction xs arbitrary: g) (simp_all add: rand_def split_beta Let_def)

lemma loop_nth:
  "i < length xs \<Longrightarrow>
   fst (updateOptionPrices_loop xs g) ! i =
     setPremium (xs ! i)
       (getPremium (xs ! i) * (1 + real_of_int (c_rem (int (g i)) 10 - 5) / 100))"
proof (induction xs arbitrary: g i)
  case Nil
  then show ?case by simp
next
  case (Cons x xs)
  show ?case
  proof (cases i)
    case 0
    then show ?thesis by (simp add: rand_def split_beta Let_def)
  next
    case (Suc j)
    with Cons.prems have "j < length xs" by simp
    from Cons.IH [OF this, of "\<lambda>i. g (Suc i)"] Suc show ?thesis
      by (simp add: rand_def split_beta Let_def)
  qed
qed

lemma getPremium_setPremium: "getPremium (setPremium x p) = p"
  by (cases x) simp_all

lemma getStrikePrice_setPremium: "getStrikePrice (setPremium x p) = getStrikePrice x"
  by (cases x) simp_all

lemma getExpiryDate_setPremium: "getExpiryDate (setPremium x p) = getExpiryDate x"
  by (cases x) simp_all

subsection \<open>One call of the update\<close>

lemma options_updateOptionPrices:
  "options (fst (updateOptionPrices chain g)) = fst (updateOptionPrices_loop (options chain) g)"
  by (simp add: updateOptionPrices_def split_beta Let_def)

lemma observers_updateOptionPrices:
  "observers (fst (updateOptionPrices chain g)) = observers chain"
  by (simp add: updateOptionPrices_def split_beta Let_def)

lemma rand_updateOptionPrices:
  "fst (snd (updateOptionPrices chain g)) = (\<lambda>i. g (i + length (options chain)))"
  by (simp add: updateOptionPrices_def split_beta Let_def loop_rand)

lemma calls_updateOptionPrices:
  "snd (snd (updateOptionPrices chain g)) = notifyObservers (fst (updateOptionPrices chain g))"
  by (simp add: updateOptionPrices_def split_beta Let_def)

lemma notify_loop_map:
  "notify_loop obs chain = map (\<lambda>observer. Update observer (update chain)) obs"
  by (induction obs) simp_all

lemma length_updateOptionPrices:
  "length (options (fst (updateOptionPrices chain g))) = length (options chain)"
  by (simp add: options_updateOptionPrices loop_length)

lemma nth_updateOptionPrices:
  "i < length (options chain) \<Longrightarrow>
   options (fst (updateOptionPrices chain g)) ! i =
     setPremium (options chain ! i)
       (getPremium (options chain ! i) * (1 + real_of_int (c_rem (int (g i)) 10 - 5) / 100))"
  by (simp add: options_updateOptionPrices loop_nth)

lemma premium_updateOptionPrices:
  "i < length (options chain) \<Longrightarrow>
   getPremium (options (fst (updateOptionPrices chain g)) ! i) =
     getPremium (options chain ! i) * (1 + real_of_int (c_rem (int (g i)) 10 - 5) / 100)"
  by (simp add: nth_updateOptionPrices getPremium_setPremium)

subsection \<open>Several calls of the update\<close>

lemma updateMarket_times_Suc:
  "fst (updateMarket_times (Suc n) chain g) =
   fst (updateMarket_times n (fst (updateOptionPrices chain g)) (fst (snd (updateOptionPrices chain g))))"
  by (simp add: updateMarket_def split_beta Let_def)

lemma length_updateMarket_times:
  "length (options (fst (updateMarket_times n chain g))) = length (options chain)"
proof (induction n arbitrary: chain g)
  case 0
  show ?case by simp
next
  case (Suc n)
  show ?case
    unfolding updateMarket_times_Suc by (simp add: Suc.IH length_updateOptionPrices)
qed

lemma premium_updateMarket_times_sgn:
  assumes "i < length (options chain)"
  shows "sgn (getPremium (options (fst (updateMarket_times n chain g)) ! i)) =
         sgn (getPremium (options chain ! i))"
  using assms
proof (induction n arbitrary: chain g)
  case 0
  show ?case by simp
next
  case (Suc n)
  let ?c = "fst (updateOptionPrices chain g)"
  let ?g = "fst (snd (updateOptionPrices chain g))"
  let ?f = "1 + real_of_int (c_rem (int (g i)) 10 - 5) / 100"
  have p1: "getPremium (options ?c ! i) = getPremium (options chain ! i) * ?f"
    using Suc.prems by (rule premium_updateOptionPrices)
  have "0 < ?f"
    using factor_bounds [of "g i"] by linarith
  then have f: "sgn ?f = 1" by simp
  have i1: "i < length (options ?c)"
    using Suc.prems by (simp add: length_updateOptionPrices)
  show ?case
    unfolding updateMarket_times_Suc Suc.IH [OF i1] p1 sgn_mult f by simp
qed

lemma added_option_index:
  "length (options chain) < length (options (addOption chain option)) \<and>
   options (addOption chain option) ! length (options chain) = option"
  by (simp add: addOption_def)

lemma created_premium_sgn:
  assumes "createOption type strike prem expiry = Some option"
  shows "sgn (getPremium (options (fst (updateMarket_times n (addOption chain option) g))
            ! length (options chain))) = sgn prem"
proof -
  have p: "getPremium option = prem"
    using createOption_getters [OF assms] by simp
  have i: "length (options chain) < length (options (addOption chain option))"
    and at: "options (addOption chain option) ! length (options chain) = option"
    using added_option_index [of chain option] by simp_all
  show ?thesis
    using premium_updateMarket_times_sgn [OF i, of n g] by (simp add: at p)
qed

section \<open>The premium drift\<close>




text \<open>
  C6, amended. The drift never changes the sign of a premium: for every contract the
  factory made, added to any chain, and every sequence of draws, after any number of
  updates the premium is positive if it was created positive, negative if it was created
  negative, and zero if it was created zero. A premium is negative after drift only when
  the contract was created with a negative premium.
\<close>

theorem premium_keeps_sign:
  "createOption type strike prem expiry = Some option \<Longrightarrow>
   (0 < prem \<longrightarrow>
      0 < getPremium (options (fst (updateMarket_times n (addOption chain option) g))
            ! length (options chain))) \<and>
   (prem < 0 \<longrightarrow>
      getPremium (options (fst (updateMarket_times n (addOption chain option) g))
            ! length (options chain)) < 0) \<and>
   (prem = 0 \<longrightarrow>
      getPremium (options (fst (updateMarket_times n (addOption chain option) g))
            ! length (options chain)) = 0)"
proof -
  assume c: "createOption type strike prem expiry = Some option"
  let ?p' = "getPremium (options (fst (updateMarket_times n (addOption chain option) g))
            ! length (options chain))"
  have s: "sgn ?p' = sgn prem"
    using c by (rule created_premium_sgn)
  have "0 < ?p'" if "0 < prem"
    using s that by (simp add: sgn_1_pos)
  moreover have "?p' < 0" if "prem < 0"
    using s that by (simp add: sgn_1_neg)
  moreover have "?p' = 0" if "prem = 0"
    using s that by (simp add: sgn_0_0)
  ultimately show ?thesis by blast
qed

text \<open>
  A put created with premium -4 has a negative premium after two updates, and a call
  created with premium 5 a positive one.
\<close>

theorem premium_keeps_sign_witness:
  "createOption ''Put'' 100 (- 4) ''2024-12-31'' = Some (PutOption 100 (- 4) ''2024-12-31'') \<and>
   getPremium (options (fst (updateMarket_times 2
       (addOption \<lparr>options = [], observers = []\<rparr> (PutOption 100 (- 4) ''2024-12-31''))
       (\<lambda>i. 9))) ! length (options \<lparr>options = [], observers = []\<rparr>)) < 0 \<and>
   createOption ''Call'' 100 5 ''2024-12-31'' = Some (CallOption 100 5 ''2024-12-31'') \<and>
   0 < getPremium (options (fst (updateMarket_times 2
       (addOption \<lparr>options = [], observers = []\<rparr> (CallOption 100 5 ''2024-12-31''))
       (\<lambda>i. 0))) ! length (options \<lparr>options = [], observers = []\<rparr>))"
proof -
  have a: "createOption ''Put'' 100 (- 4) ''2024-12-31'' = Some (PutOption 100 (- 4) ''2024-12-31'')"
    by (simp add: createOption_def)
  have b: "createOption ''Call'' 100 5 ''2024-12-31'' = Some (CallOption 100 5 ''2024-12-31'')"
    by (simp add: createOption_def)
  from premium_keeps_sign [OF a, of 2 "\<lparr>options = [], observers = []\<rparr>" "\<lambda>i. 9"]
    premium_keeps_sign [OF b, of 2 "\<lparr>options = [], observers = []\<rparr>" "\<lambda>i. 0"] a b
  show ?thesis by simp
qed

text \<open>
  No contract created with a positive premium has a negative premium after any
  sequence of draws.
\<close>

theorem premium_negative_counterexample:
  "\<not> (\<exists>type strike prem expiry option chain g n.
        0 < prem \<and> createOption type strike prem expiry = Some option \<and>
        getPremium (options (fst (updateMarket_times n (addOption chain option) g))
            ! length (options chain)) < 0)"
proof
  assume "\<exists>type strike prem expiry option chain g n.
        0 < prem \<and> createOption type strike prem expiry = Some option \<and>
        getPremium (options (fst (updateMarket_times n (addOption chain option) g))
            ! length (options chain)) < 0"
  then obtain type strike prem expiry option chain g n
    where pos: "0 < prem"
      and c: "createOption type strike prem expiry = Some option"
      and neg: "getPremium (options (fst (updateMarket_times n (addOption chain option) g))
            ! length (options chain)) < 0"
    by blast
  from created_premium_sgn [OF c, of n chain g] pos neg show False
    by (simp add: sgn_1_neg)
qed

section \<open>The premium after 100 updates, in binary64\<close>

subsection \<open>The error of one rounding\<close>

lemma round_even_error: "\<bar>real_of_int (round_even s) - s\<bar> \<le> 1 / 2"
proof -
  have "real_of_int \<lfloor>s\<rfloor> \<le> s" and "s < real_of_int \<lfloor>s\<rfloor> + 1"
    by linarith+
  then show ?thesis
    by (auto simp: round_even_def Let_def)
qed

lemma ilog2_ge1:
  assumes "1 \<le> y"
  shows "2 powi ilog2 y \<le> y \<and> y < 2 powi (ilog2 y + 1)"
proof -
  let ?n = "\<lfloor>y\<rfloor>"
  have n: "0 < ?n" using assms by linarith
  have b: "2 ^ nat (bitlen ?n - 1) \<le> ?n" "?n < 2 ^ nat (bitlen ?n)"
    using bitlen_bounds [OF n] by simp_all
  have b1: "1 \<le> bitlen ?n"
    using n bitlen_eq_zero_iff [of ?n] bitlen_nonneg [of ?n] by linarith
  have k: "ilog2 y = bitlen ?n - 1" using assms by (simp add: ilog2_def)
  have "real_of_int (2 ^ nat (bitlen ?n - 1)) \<le> real_of_int ?n"
    using b(1) by (simp only: of_int_le_iff)
  then have "(2::real) ^ nat (bitlen ?n - 1) \<le> real_of_int ?n"
    by simp
  then have lo: "2 ^ nat (bitlen ?n - 1) \<le> y"
    by linarith
  have "?n + 1 \<le> 2 ^ nat (bitlen ?n)" using b(2) by linarith
  then have "real_of_int (?n + 1) \<le> real_of_int (2 ^ nat (bitlen ?n))"
    by (simp only: of_int_le_iff)
  then have "real_of_int ?n + 1 \<le> (2::real) ^ nat (bitlen ?n)"
    by simp
  then have hi: "y < 2 ^ nat (bitlen ?n)"
    by linarith
  have p1: "(2::real) powi (bitlen ?n - 1) = 2 ^ nat (bitlen ?n - 1)"
    using b1 by (simp add: power_int_nonneg_exp)
  have p2: "(2::real) powi (bitlen ?n - 1 + 1) = 2 ^ nat (bitlen ?n)"
    using b1 by (simp add: power_int_nonneg_exp)
  show ?thesis unfolding k p1 p2 using lo hi by simp
qed

lemma ilog2_lt1:
  assumes "0 < y" and "y < 1"
  shows "2 powi ilog2 y \<le> y \<and> y < 2 powi (ilog2 y + 1)"
proof -
  let ?z = "1 / y"
  let ?m = "\<lceil>?z\<rceil> - 1"
  have z: "1 < ?z" using assms by simp
  have mz: "real_of_int ?m < ?z" "?z \<le> real_of_int ?m + 1"
    by linarith+
  have m: "0 < ?m" using z by linarith
  have b: "2 ^ nat (bitlen ?m - 1) \<le> ?m" "?m < 2 ^ nat (bitlen ?m)"
    using bitlen_bounds [OF m] by simp_all
  have b1: "1 \<le> bitlen ?m"
    using m bitlen_eq_zero_iff [of ?m] bitlen_nonneg [of ?m] by linarith
  have k: "ilog2 y = - bitlen ?m" using assms by (simp add: ilog2_def)
  have "real_of_int (2 ^ nat (bitlen ?m - 1)) \<le> real_of_int ?m"
    using b(1) by (simp only: of_int_le_iff)
  then have "(2::real) ^ nat (bitlen ?m - 1) \<le> real_of_int ?m"
    by simp
  then have lo: "2 ^ nat (bitlen ?m - 1) < ?z"
    using mz(1) by linarith
  have "?m + 1 \<le> 2 ^ nat (bitlen ?m)" using b(2) by linarith
  then have "real_of_int (?m + 1) \<le> real_of_int (2 ^ nat (bitlen ?m))"
    by (simp only: of_int_le_iff)
  then have "real_of_int ?m + 1 \<le> (2::real) ^ nat (bitlen ?m)"
    by simp
  then have hi: "?z \<le> 2 ^ nat (bitlen ?m)"
    using mz(2) by linarith
  have p1: "(2::real) powi (- bitlen ?m) = 1 / 2 ^ nat (bitlen ?m)"
    using b1 by (simp add: power_int_minus_divide power_int_nonneg_exp)
  have "(2::real) powi (- bitlen ?m + 1) = 2 powi (- (bitlen ?m - 1))" by simp
  also have "\<dots> = 1 / 2 ^ nat (bitlen ?m - 1)"
    using b1 by (simp only: power_int_minus_divide) (simp add: power_int_nonneg_exp)
  finally have p2: "(2::real) powi (- bitlen ?m + 1) = 1 / 2 ^ nat (bitlen ?m - 1)" .
  have A: "1 / 2 ^ nat (bitlen ?m) \<le> y"
    using hi assms(1) by (simp add: field_simps)
  have B: "y < 1 / 2 ^ nat (bitlen ?m - 1)"
    using lo assms(1) by (simp add: field_simps)
  show ?thesis unfolding k p1 p2 using A B by simp
qed

lemma ilog2_bounds:
  "0 < y \<Longrightarrow> 2 powi ilog2 y \<le> y \<and> y < 2 powi (ilog2 y + 1)"
  using ilog2_ge1 [of y] ilog2_lt1 [of y] by (cases "1 \<le> y") simp_all

text \<open>
  In the normal range the rounded value is off by at most the fraction \<open>2 ^ -53\<close> of
  the exact one.
\<close>

lemma binary64_error:
  assumes "2 powi (- 1022) \<le> x"
  shows "\<bar>binary64 x - x\<bar> \<le> x / 2 ^ 53"
proof -
  have x: "0 < x"
    using assms zero_less_power_int [of "2::real" "- 1022"] by linarith
  let ?k = "ilog2 x"
  have kb: "2 powi ?k \<le> x" "x < 2 powi (?k + 1)"
    using ilog2_bounds [OF x] by simp_all
  have "- 1022 < ?k + 1"
  proof (rule ccontr)
    assume "\<not> - 1022 < ?k + 1"
    then have "?k + 1 \<le> - 1022" by simp
    then have "(2::real) powi (?k + 1) \<le> 2 powi (- 1022)"
      by (rule power_int_increasing) simp
    with kb(2) assms show False by linarith
  qed
  then have e: "max (?k - 52) (- 1074) = ?k - 52" by simp
  let ?e = "?k - 52"
  let ?q = "(2::real) powi ?e"
  have q: "0 < ?q" by simp
  let ?R = "real_of_int (round_even (x / ?q))"
  have v: "binary64 x = ?R * ?q"
    using x by (simp add: binary64_def Let_def e)
  have "\<bar>?R - x / ?q\<bar> \<le> 1 / 2" by (rule round_even_error)
  then have "\<bar>?R - x / ?q\<bar> * ?q \<le> 1 / 2 * ?q"
    using q by (simp only: mult_right_mono less_imp_le)
  moreover have "\<bar>?R - x / ?q\<bar> * ?q = \<bar>?R * ?q - x\<bar>"
  proof -
    have "\<bar>?R - x / ?q\<bar> * ?q = \<bar>(?R - x / ?q) * ?q\<bar>"
      using q by (simp add: abs_mult)
    also have "(?R - x / ?q) * ?q = ?R * ?q - x"
      using q by (simp add: field_simps)
    finally show ?thesis .
  qed
  ultimately have err: "\<bar>binary64 x - x\<bar> \<le> ?q / 2" unfolding v by simp
  have "(2::real) powi ?k = 2 powi (?e + 52)" by simp
  also have "\<dots> = ?q * 2 powi 52"
    by (rule power_int_add) simp
  finally have "?q * 2 ^ 52 \<le> x" using kb(1) by simp
  then have "?q / 2 \<le> x / 2 ^ 53" by (simp add: field_simps)
  with err show ?thesis by linarith
qed

lemma relative_error_bounds:
  fixes x y u :: real
  assumes "\<bar>y - x\<bar> \<le> x * u"
  shows "x * (1 - u) \<le> y \<and> y \<le> x * (1 + u)"
proof -
  define d where "d = x * u"
  have a: "x * (1 - u) = x - d" "x * (1 + u) = x + d"
    by (simp_all add: d_def algebra_simps)
  from assms have "\<bar>y - x\<bar> \<le> d" by (simp only: d_def)
  then show ?thesis unfolding a by linarith
qed

lemma roundoff_range: "0 \<le> roundoff" "roundoff \<le> 1 / 2 ^ 53" "roundoff \<le> 1 / 100"
  by (simp_all add: roundoff_def)

subsection \<open>One update\<close>

lemma loop_binary64_length:
  "length (fst (updateOptionPrices_loop_binary64 xs g)) = length xs"
  by (induction xs arbitrary: g) (simp_all add: rand_def split_beta Let_def)

lemma loop_binary64_rand:
  "snd (updateOptionPrices_loop_binary64 xs g) = (\<lambda>i. g (i + length xs))"
  by (induction xs arbitrary: g) (simp_all add: rand_def split_beta Let_def)

lemma loop_binary64_nth:
  "i < length xs \<Longrightarrow>
   fst (updateOptionPrices_loop_binary64 xs g) ! i =
     setPremium (xs ! i) (newPremium_binary64 (getPremium (xs ! i)) (int (g i)))"
proof (induction xs arbitrary: g i)
  case Nil
  then show ?case by simp
next
  case (Cons x xs)
  show ?case
  proof (cases i)
    case 0
    then show ?thesis by (simp add: rand_def split_beta Let_def)
  next
    case (Suc j)
    with Cons.prems have "j < length xs" by simp
    from Cons.IH [OF this, of "\<lambda>i. g (Suc i)"] Suc show ?thesis
      by (simp add: rand_def split_beta Let_def)
  qed
qed

lemma options_updateOptionPrices_binary64:
  "options (fst (updateOptionPrices_binary64 chain g)) =
   fst (updateOptionPrices_loop_binary64 (options chain) g)"
  by (simp add: updateOptionPrices_binary64_def split_beta Let_def)

lemma rand_updateOptionPrices_binary64:
  "fst (snd (updateOptionPrices_binary64 chain g)) = (\<lambda>i. g (i + length (options chain)))"
  by (simp add: updateOptionPrices_binary64_def split_beta Let_def loop_binary64_rand)

lemma length_updateOptionPrices_binary64:
  "length (options (fst (updateOptionPrices_binary64 chain g))) = length (options chain)"
  by (simp add: options_updateOptionPrices_binary64 loop_binary64_length)

lemma premium_updateOptionPrices_binary64:
  "i < length (options chain) \<Longrightarrow>
   getPremium (options (fst (updateOptionPrices_binary64 chain g)) ! i) =
     newPremium_binary64 (getPremium (options chain ! i)) (int (g i))"
  by (simp add: options_updateOptionPrices_binary64 loop_binary64_nth getPremium_setPremium)

text \<open>
  The ten factors \<open>1.0 + drift / 100.0\<close>, as computed, are within one rounding of
  0.95 and 1.04.
\<close>

lemma factor_binary64_bounds:
  "95 / 100 * (1 - 1 / 2 ^ 53)
     \<le> binary64 (1 + binary64 (real_of_int (c_rem (int v) 10 - 5) / 100)) \<and>
   binary64 (1 + binary64 (real_of_int (c_rem (int v) 10 - 5) / 100))
     \<le> 104 / 100 * (1 + 1 / 2 ^ 53)"
proof -
  have ten: "k = 0 \<or> k = 1 \<or> k = 2 \<or> k = 3 \<or> k = 4 \<or> k = 5 \<or> k = 6 \<or> k = 7 \<or>
      k = 8 \<or> k = 9" if "k < 10" for k :: nat
    using that by presburger
  have "v mod 10 < 10" by simp
  from ten [OF this] show ?thesis
    unfolding c_rem_nat
    by (elim disjE)
      (simp_all add: binary64_def ilog2_def round_even_def compute_bitlen Let_def)
qed

lemma newPremium_binary64_bounds:
  assumes "1 / 2 ^ 1000 \<le> p"
  shows "p * (95 / 100 * (1 - 1 / 2 ^ 53) ^ 2) \<le> newPremium_binary64 p (int v) \<and>
         newPremium_binary64 p (int v) \<le> p * (104 / 100 * (1 + 1 / 2 ^ 53) ^ 2)"
proof -
  let ?u = "1 / 2 ^ 53 :: real"
  let ?c = "binary64 (1 + binary64 (real_of_int (c_rem (int v) 10 - 5) / 100))"
  have p: "0 < p"
    using assms by (rule less_le_trans [rotated]) simp
  have c: "95 / 100 * (1 - ?u) \<le> ?c" "?c \<le> 104 / 100 * (1 + ?u)"
    using factor_binary64_bounds [of v] by simp_all
  have half: "1 / 2 \<le> 95 / 100 * (1 - ?u)" by simp
  have c_half: "1 / 2 \<le> ?c" using c(1) half by linarith
  let ?x = "p * ?c"
  have x_lo: "p * (95 / 100 * (1 - ?u)) \<le> ?x"
    using c(1) p by (simp only: mult_left_mono less_imp_le)
  have x_hi: "?x \<le> p * (104 / 100 * (1 + ?u))"
    using c(2) p by (simp only: mult_left_mono less_imp_le)
  have "1 / 2 ^ 1000 * (1 / 2) \<le> p * ?c"
    using assms c_half p by (intro mult_mono) simp_all
  moreover have "(2::real) powi (- 1022) \<le> 1 / 2 ^ 1000 * (1 / 2)"
    by (simp add: power_int_minus_divide)
  ultimately have range: "2 powi (- 1022) \<le> ?x" by linarith
  have x: "0 < ?x" using p c_half by simp
  have err: "\<bar>binary64 ?x - ?x\<bar> \<le> ?x * ?u"
    using binary64_error [OF range] by simp
  have r_lo: "?x * (1 - ?u) \<le> binary64 ?x" and r_hi: "binary64 ?x \<le> ?x * (1 + ?u)"
    using relative_error_bounds [OF err] by blast+
  have "p * (95 / 100 * (1 - ?u)) * (1 - ?u) \<le> ?x * (1 - ?u)"
    using x_lo by (rule mult_right_mono) simp
  then have lo: "p * (95 / 100 * (1 - ?u) ^ 2) \<le> binary64 ?x"
    using r_lo by (simp add: power2_eq_square mult.assoc)
  have "?x * (1 + ?u) \<le> p * (104 / 100 * (1 + ?u)) * (1 + ?u)"
    using x_hi by (rule mult_right_mono) simp
  then have hi: "binary64 ?x \<le> p * (104 / 100 * (1 + ?u) ^ 2)"
    using r_hi by (simp add: power2_eq_square mult.assoc)
  have "newPremium_binary64 p (int v) = binary64 ?x"
    by (simp add: newPremium_binary64_def)
  with lo hi show ?thesis by simp
qed

lemma newPremium_binary64_roundoff:
  assumes "1 / 2 ^ 1000 \<le> p"
  shows "p * (95 / 100 * (1 - roundoff) ^ 2) \<le> newPremium_binary64 p (int v) \<and>
         newPremium_binary64 p (int v) \<le> p * (104 / 100 * (1 + roundoff) ^ 2)"
  unfolding roundoff_def using assms by (rule newPremium_binary64_bounds)

lemma drift_factor_range:
  "1 / 2 \<le> 95 / 100 * (1 - roundoff) ^ 2" "95 / 100 * (1 - roundoff) ^ 2 \<le> 1"
  "1 \<le> 104 / 100 * (1 + roundoff) ^ 2"
  by (simp_all add: roundoff_def power2_eq_square)

subsection \<open>Several updates\<close>

lemma updateMarket_times_binary64_Suc:
  "fst (updateMarket_times_binary64 (Suc n) chain g) =
   fst (updateMarket_times_binary64 n (fst (updateOptionPrices_binary64 chain g))
     (fst (snd (updateOptionPrices_binary64 chain g))))"
  by (simp add: updateMarket_binary64_def split_beta Let_def)

lemma length_updateMarket_times_binary64:
  "length (options (fst (updateMarket_times_binary64 n chain g))) = length (options chain)"
proof (induction n arbitrary: chain g)
  case 0
  show ?case by simp
next
  case (Suc n)
  show ?case
    unfolding updateMarket_times_binary64_Suc
    by (simp add: Suc.IH length_updateOptionPrices_binary64)
qed

lemma premium_binary64_bounds:
  assumes "i < length (options chain)"
    and "(1 / 2) ^ m \<le> getPremium (options chain ! i)"
    and "n + m \<le> 1000"
  shows "getPremium (options chain ! i) * (95 / 100 * (1 - roundoff) ^ 2) ^ n
           \<le> getPremium (options (fst (updateMarket_times_binary64 n chain g)) ! i) \<and>
         getPremium (options (fst (updateMarket_times_binary64 n chain g)) ! i)
           \<le> getPremium (options chain ! i) * (104 / 100 * (1 + roundoff) ^ 2) ^ n"
  using assms
proof (induction n arbitrary: chain g m)
  case 0
  show ?case by simp
next
  case (Suc n)
  let ?lo = "95 / 100 * (1 - roundoff) ^ 2"
  let ?hi = "104 / 100 * (1 + roundoff) ^ 2"
  let ?c = "fst (updateOptionPrices_binary64 chain g)"
  let ?g = "fst (snd (updateOptionPrices_binary64 chain g))"
  let ?p = "getPremium (options chain ! i)"
  let ?p1 = "getPremium (options ?c ! i)"
  let ?pn = "getPremium (options (fst (updateMarket_times_binary64 n ?c ?g)) ! i)"
  have m: "m \<le> 1000" using Suc.prems(3) by simp
  have "(1 / 2 :: real) ^ 1000 \<le> (1 / 2) ^ m"
    using m by (rule power_decreasing) simp_all
  then have "(1 / 2 :: real) ^ 1000 \<le> ?p"
    using Suc.prems(2) by (rule order_trans)
  then have range: "1 / 2 ^ 1000 \<le> ?p"
    by (simp only: power_one_over)
  have p1: "?p1 = newPremium_binary64 ?p (int (g i))"
    using Suc.prems(1) by (rule premium_updateOptionPrices_binary64)
  have step: "?p * ?lo \<le> ?p1" "?p1 \<le> ?p * ?hi"
    unfolding p1 using newPremium_binary64_roundoff [OF range, of "g i"] by blast+
  have i1: "i < length (options ?c)"
    using Suc.prems(1) by (simp add: length_updateOptionPrices_binary64)
  have p0: "0 \<le> ?p"
  proof -
    have "(0::real) \<le> (1 / 2) ^ m" by simp
    with Suc.prems(2) show ?thesis by linarith
  qed
  have "(1 / 2) ^ m * (1 / 2) \<le> ?p * ?lo"
    using Suc.prems(2) drift_factor_range(1) p0 by (intro mult_mono) simp_all
  then have m1: "(1 / 2) ^ Suc m \<le> ?p1"
    using step(1) by simp
  have nm: "n + Suc m \<le> 1000" using Suc.prems(3) by simp
  have IH: "?p1 * ?lo ^ n \<le> ?pn" "?pn \<le> ?p1 * ?hi ^ n"
    using Suc.IH [OF i1 m1 nm, of ?g] by blast+
  have lo0: "0 \<le> ?lo ^ n" using drift_factor_range(1) by (intro zero_le_power) linarith
  have hi0: "0 \<le> ?hi ^ n" using drift_factor_range(3) by (intro zero_le_power) linarith
  have "?p * ?lo * ?lo ^ n \<le> ?p1 * ?lo ^ n"
    using step(1) lo0 by (rule mult_right_mono)
  then have lo: "?p * ?lo ^ Suc n \<le> ?pn"
    using IH(1) by (simp add: mult.assoc)
  have "?p1 * ?hi ^ n \<le> ?p * ?hi * ?hi ^ n"
    using step(2) hi0 by (rule mult_right_mono)
  then have hi: "?pn \<le> ?p * ?hi ^ Suc n"
    using IH(2) by (simp add: mult.assoc)
  show ?case
    unfolding updateMarket_times_binary64_Suc using lo hi by blast
qed

lemma power_200_slack:
  fixes u :: real
  assumes "0 \<le> u" and "u \<le> 1 / 2 ^ 53"
  shows "(1 + u) ^ 200 \<le> 1 + 1 / 2 ^ 45" and "1 - 1 / 2 ^ 45 \<le> (1 - u) ^ 200"
proof -
  have b: "1 + of_nat 200 * (- u) \<le> (1 + (- u)) ^ 200"
    using assms by (intro Bernoulli_inequality) simp
  then have bern: "1 - 200 * u \<le> (1 - u) ^ 200" by simp
  have t: "1 - 200 / 2 ^ 53 \<le> 1 - 200 * u" using assms(2) by simp
  have "(1::real) - 1 / 2 ^ 45 \<le> 1 - 200 / 2 ^ 53" by simp
  with t bern show "1 - 1 / 2 ^ 45 \<le> (1 - u) ^ 200" by linarith
  have pos: "0 < 1 - 200 * u"
  proof -
    have "(0::real) < 1 - 200 / 2 ^ 53" by simp
    with t show ?thesis by linarith
  qed
  have u1: "u \<le> 1"
  proof -
    have "(1::real) / 2 ^ 53 \<le> 1" by simp
    with assms(2) show ?thesis by linarith
  qed
  have "(1 + u) * (1 - u) = 1 - u * u" by (simp add: algebra_simps)
  moreover have "0 \<le> u * u" using assms(1) by simp
  moreover have "u * u \<le> 1 * 1" using assms(1) u1 by (intro mult_mono) simp_all
  ultimately have q: "0 \<le> (1 + u) * (1 - u)" "(1 + u) * (1 - u) \<le> 1" by simp_all
  have "((1 + u) * (1 - u)) ^ 200 \<le> 1" using q by (rule power_le_one)
  then have prod: "(1 + u) ^ 200 * (1 - u) ^ 200 \<le> 1" by (simp only: power_mult_distrib)
  have nn: "0 \<le> (1 + u) ^ 200" using assms(1) by simp
  have "(1 + u) ^ 200 * (1 - 200 * u) \<le> (1 + u) ^ 200 * (1 - u) ^ 200"
    using bern nn by (rule mult_left_mono)
  with prod have "(1 + u) ^ 200 * (1 - 200 * u) \<le> 1" by linarith
  then have "(1 + u) ^ 200 \<le> 1 / (1 - 200 * u)"
    using pos by (simp only: pos_le_divide_eq)
  also have "\<dots> \<le> 1 / (1 - 200 / 2 ^ 53)"
    using t pos by (intro divide_left_mono) (simp_all add: mult_pos_pos)
  also have "\<dots> \<le> 1 + 1 / 2 ^ 45" by simp
  finally show "(1 + u) ^ 200 \<le> 1 + 1 / 2 ^ 45" .
qed

text \<open>
  When every call of \<open>rand()\<close> returns the same value, the premium of each option
  follows \<open>premium_after\<close>.
\<close>

lemma premium_constant_draws:
  "i < length (options chain) \<Longrightarrow>
   getPremium (options (fst (updateMarket_times_binary64 n chain (\<lambda>i. v))) ! i) =
     premium_after n (int v) (getPremium (options chain ! i))"
proof (induction n arbitrary: chain)
  case 0
  show ?case by simp
next
  case (Suc n)
  let ?c = "fst (updateOptionPrices_binary64 chain (\<lambda>i. v))"
  have g: "fst (snd (updateOptionPrices_binary64 chain (\<lambda>i. v))) = (\<lambda>i. v)"
    by (simp add: rand_updateOptionPrices_binary64)
  have i1: "i < length (options ?c)"
    using Suc.prems by (simp add: length_updateOptionPrices_binary64)
  have p1: "getPremium (options ?c ! i) =
      newPremium_binary64 (getPremium (options chain ! i)) (int v)"
    using Suc.prems by (rule premium_updateOptionPrices_binary64)
  show ?case
    unfolding updateMarket_times_binary64_Suc g using Suc.IH [OF i1] by (simp add: p1)
qed

lemma premium_after_numeral:
  "premium_after (numeral k) r p =
   premium_after (pred_numeral k) r (newPremium_binary64 p r)"
  by (simp add: numeral_eq_Suc)

text \<open>
  The factor is the double 1.04 when \<open>rand()\<close> returns 9 and the double 0.95 when it
  returns 0.
\<close>

lemma factor_9:
  "newPremium_binary64 p 9 = binary64 (p * (1170935903116329 / 1125899906842624))"
  by (simp add: newPremium_binary64_def c_rem_def binary64_def ilog2_def round_even_def
      compute_bitlen Let_def)

lemma factor_0:
  "newPremium_binary64 p 0 = binary64 (p * (4278419646001971 / 4503599627370496))"
  by (simp add: newPremium_binary64_def c_rem_def binary64_def ilog2_def round_even_def
      compute_bitlen Let_def)

text \<open>
  The 100 roundings of the two extreme runs from the premium 5, one by one.
\<close>

lemma premium_after_100_draws_9:
  "premium_after 100 9 5 = 8884924446212615 / 35184372088832"
  by (simp add: premium_after_numeral factor_9 binary64_def ilog2_def round_even_def
      compute_bitlen Let_def)

lemma premium_after_100_draws_0:
  "premium_after 100 0 5 = 8532381820970347 / 288230376151711744"
  by (simp add: premium_after_numeral factor_0 binary64_def ilog2_def round_even_def
      compute_bitlen Let_def)

lemma run_100_draws_9:
  "getPremium (options (fst (updateMarket_times_binary64 100
      \<lparr>options = [CallOption 100 5 ''2024-12-31''], observers = []\<rparr> (\<lambda>i. 9))) ! 0) =
   8884924446212615 / 35184372088832"
proof -
  let ?c = "\<lparr>options = [CallOption 100 5 ''2024-12-31''], observers = []\<rparr>"
  have i: "0 < length (options ?c)" by simp
  have "getPremium (options (fst (updateMarket_times_binary64 100 ?c (\<lambda>i. 9))) ! 0) =
      premium_after 100 (int 9) (getPremium (options ?c ! 0))"
    using i by (rule premium_constant_draws)
  also have "\<dots> = premium_after 100 9 5" by simp
  finally show ?thesis by (simp only: premium_after_100_draws_9)
qed

lemma run_100_draws_0:
  "getPremium (options (fst (updateMarket_times_binary64 100
      \<lparr>options = [CallOption 100 5 ''2024-12-31''], observers = []\<rparr> (\<lambda>i. 0))) ! 0) =
   8532381820970347 / 288230376151711744"
proof -
  let ?c = "\<lparr>options = [CallOption 100 5 ''2024-12-31''], observers = []\<rparr>"
  have i: "0 < length (options ?c)" by simp
  have "getPremium (options (fst (updateMarket_times_binary64 100 ?c (\<lambda>i. 0))) ! 0) =
      premium_after 100 (int 0) (getPremium (options ?c ! 0))"
    using i by (rule premium_constant_draws)
  also have "\<dots> = premium_after 100 0 5" by simp
  finally show ?thesis by (simp only: premium_after_100_draws_0)
qed

lemma limit_100: "(5::real) * (104 / 100) ^ 100 < 8884924446212615 / 35184372088832"
  by (simp add: power_divide)

lemma limit_100_lo: "(8532381820970347 / 288230376151711744 :: real) < 5 * (95 / 100) ^ 100"
  by (simp add: power_divide)

subsection \<open>The bounds\<close>

text \<open>
  C8, amended. From a chain whose only option is a call with strike 100 and premium 5,
  after \<open>n \<le> 100\<close> updates computed in binary64, whatever the draws, the chain still
  has one option and its premium is at least \<open>5 * 0.95 ^ 100 * (1 - 2 ^ -45)\<close> and at
  most \<open>5 * 1.04 ^ 100 * (1 + 2 ^ -45)\<close>: the bounds \<open>5 * 0.95 ^ 100\<close> and
  \<open>5 * 1.04 ^ 100\<close> hold up to the rounding of the 100 updates.
\<close>

theorem premium_bounds_100_binary64:
  "options chain = [CallOption 100 5 expiry] \<Longrightarrow> n \<le> 100 \<Longrightarrow>
   length (options (fst (updateMarket_times_binary64 n chain g))) = 1 \<and>
   5 * (95 / 100) ^ 100 * (1 - 1 / 2 ^ 45)
     \<le> getPremium (options (fst (updateMarket_times_binary64 n chain g)) ! 0) \<and>
   getPremium (options (fst (updateMarket_times_binary64 n chain g)) ! 0)
     \<le> 5 * (104 / 100) ^ 100 * (1 + 1 / 2 ^ 45)"
proof -
  assume o: "options chain = [CallOption 100 5 expiry]" and n: "n \<le> 100"
  let ?lo = "95 / 100 * (1 - roundoff) ^ 2"
  let ?hi = "104 / 100 * (1 + roundoff) ^ 2"
  let ?p' = "getPremium (options (fst (updateMarket_times_binary64 n chain g)) ! 0)"
  have i: "0 < length (options chain)" and p: "getPremium (options chain ! 0) = 5"
    by (simp_all add: o)
  have start: "(1 / 2) ^ 0 \<le> getPremium (options chain ! 0)" by (simp add: p)
  have nm: "n + 0 \<le> 1000" using n by simp
  have b: "5 * ?lo ^ n \<le> ?p'" "?p' \<le> 5 * ?hi ^ n"
    using premium_binary64_bounds [OF i start nm, of g] unfolding p by blast+
  have lo_n: "?lo ^ 100 \<le> ?lo ^ n"
    using n drift_factor_range(1,2) by (intro power_decreasing) linarith+
  have hi_n: "?hi ^ n \<le> ?hi ^ 100"
    using n drift_factor_range(3) by (intro power_increasing)
  have lo_eq: "?lo ^ 100 = (95 / 100) ^ 100 * (1 - roundoff) ^ 200"
    by (simp only: power_mult_distrib power_mult [symmetric]) simp
  have hi_eq: "?hi ^ 100 = (104 / 100) ^ 100 * (1 + roundoff) ^ 200"
    by (simp only: power_mult_distrib power_mult [symmetric]) simp
  have s: "(1 + roundoff) ^ 200 \<le> 1 + 1 / 2 ^ 45" "1 - 1 / 2 ^ 45 \<le> (1 - roundoff) ^ 200"
    using power_200_slack [OF roundoff_range(1,2)] by blast+
  have "(95 / 100 :: real) ^ 100 * (1 - 1 / 2 ^ 45) \<le> (95 / 100) ^ 100 * (1 - roundoff) ^ 200"
    using s(2) by (rule mult_left_mono) simp
  then have lo: "5 * ((95 / 100) ^ 100 * (1 - 1 / 2 ^ 45)) \<le> ?p'"
    using b(1) lo_n unfolding lo_eq by linarith
  have "(104 / 100 :: real) ^ 100 * (1 + roundoff) ^ 200 \<le> (104 / 100) ^ 100 * (1 + 1 / 2 ^ 45)"
    using s(1) by (rule mult_left_mono) simp
  then have hi: "?p' \<le> 5 * ((104 / 100) ^ 100 * (1 + 1 / 2 ^ 45))"
    using b(2) hi_n unfolding hi_eq by linarith
  have len: "length (options (fst (updateMarket_times_binary64 n chain g))) = 1"
    by (simp add: length_updateMarket_times_binary64 o)
  from lo hi len show ?thesis by (simp only: mult.assoc) 
qed

text \<open>
  After 100 updates with every draw 9 the premium is 8884924446212615 / 2 ^ 45, about
  252.52474092134818.
\<close>

theorem premium_bounds_100_binary64_witness:
  "options \<lparr>options = [CallOption 100 5 ''2024-12-31''], observers = []\<rparr> =
     [CallOption 100 5 ''2024-12-31''] \<and> (100::nat) \<le> 100 \<and>
   5 * (95 / 100) ^ 100 * (1 - 1 / 2 ^ 45) \<le> (8884924446212615 / 35184372088832 :: real) \<and>
   (8884924446212615 / 35184372088832 :: real) \<le> 5 * (104 / 100) ^ 100 * (1 + 1 / 2 ^ 45)"
proof -
  let ?c = "\<lparr>options = [CallOption 100 5 ''2024-12-31''], observers = []\<rparr>"
  have o: "options ?c = [CallOption 100 5 ''2024-12-31'']" by simp
  have n: "(100::nat) \<le> 100" by simp
  from premium_bounds_100_binary64 [OF o n, of "\<lambda>i. 9", unfolded run_100_draws_9] o n
  show ?thesis by blast
qed

text \<open>
  The bounds without the allowance for rounding fail: after 100 updates with every
  draw 9 (drift 4) the premium is above \<open>5 * 1.04 ^ 100\<close>, and with every draw 0
  (drift -5) it is 8532381820970347 / 2 ^ 58, below \<open>5 * 0.95 ^ 100\<close>.
\<close>

theorem premium_bounds_100_counterexample:
  "getPremium (options (fst (updateMarket_times_binary64 100
      \<lparr>options = [CallOption 100 5 ''2024-12-31''], observers = []\<rparr> (\<lambda>i. 9))) ! 0) =
     8884924446212615 / 35184372088832 \<and>
   \<not> getPremium (options (fst (updateMarket_times_binary64 100
      \<lparr>options = [CallOption 100 5 ''2024-12-31''], observers = []\<rparr> (\<lambda>i. 9))) ! 0)
       \<le> 5 * (104 / 100) ^ 100 \<and>
   getPremium (options (fst (updateMarket_times_binary64 100
      \<lparr>options = [CallOption 100 5 ''2024-12-31''], observers = []\<rparr> (\<lambda>i. 0))) ! 0) =
     8532381820970347 / 288230376151711744 \<and>
   \<not> 5 * (95 / 100) ^ 100
       \<le> getPremium (options (fst (updateMarket_times_binary64 100
            \<lparr>options = [CallOption 100 5 ''2024-12-31''], observers = []\<rparr> (\<lambda>i. 0))) ! 0)"
  unfolding run_100_draws_9 run_100_draws_0 using limit_100 limit_100_lo by simp

section \<open>Notification\<close>

lemma count_list_distinct:
  "distinct xs \<Longrightarrow> x \<in> set xs \<Longrightarrow> count_list xs x = 1"
  by (induction xs) (auto simp: count_list_0_iff)

text \<open>
  C4. One call of the update makes exactly one call of \<open>update()\<close> for each entry of
  the observer list, in the order of the list, which is the order of registration; each
  of these calls reads the chain as it is after the loop over the options. When no
  observer is registered twice, every registered observer is called exactly once.
\<close>

theorem updateOptionPrices_notifies:
  "snd (snd (updateOptionPrices chain g)) =
     map (\<lambda>observer. Update observer (update (fst (updateOptionPrices chain g))))
       (observers chain) \<and>
   map (\<lambda>call. case call of Update observer out \<Rightarrow> observer)
       (snd (snd (updateOptionPrices chain g))) = observers chain \<and>
   (distinct (observers chain) \<longrightarrow>
      (\<forall>observer\<in>set (observers chain).
         count_list (map (\<lambda>call. case call of Update observer out \<Rightarrow> observer)
           (snd (snd (updateOptionPrices chain g)))) observer = 1)) \<and>
   options (fst (updateOptionPrices chain g)) =
     fst (updateOptionPrices_loop (options chain) g) \<and>
   observers (registerObserver (registerObserver chain a) b) = observers chain @ [a, b]"
proof -
  have calls: "snd (snd (updateOptionPrices chain g)) =
     map (\<lambda>observer. Update observer (update (fst (updateOptionPrices chain g))))
       (observers chain)"
    by (simp add: calls_updateOptionPrices notifyObservers_def notify_loop_map
        observers_updateOptionPrices)
  have who: "map (\<lambda>call. case call of Update observer out \<Rightarrow> observer)
       (snd (snd (updateOptionPrices chain g))) = observers chain"
    unfolding calls by (simp add: comp_def)
  have once: "count_list (map (\<lambda>call. case call of Update observer out \<Rightarrow> observer)
           (snd (snd (updateOptionPrices chain g)))) observer = 1"
    if "distinct (observers chain)" and "observer \<in> set (observers chain)" for observer
    unfolding who using that by (rule count_list_distinct)
  have reg: "observers (registerObserver (registerObserver chain a) b) = observers chain @ [a, b]"
    by (simp add: registerObserver_def)
  from calls who once reg options_updateOptionPrices [of chain g] show ?thesis by blast
qed

text \<open>
  With one option and two observers: both see the premium after the drift.
\<close>

theorem updateOptionPrices_notifies_witness:
  "distinct (observers \<lparr>options = [CallOption 100 5 ''2024-12-31''], observers = [7, 8]\<rparr>) \<and>
   snd (snd (updateOptionPrices
       \<lparr>options = [CallOption 100 5 ''2024-12-31''], observers = [7, 8]\<rparr> (\<lambda>i. 0))) =
     [Update 7 (update \<lparr>options = [CallOption 100 (475 / 100) ''2024-12-31''], observers = [7, 8]\<rparr>),
      Update 8 (update \<lparr>options = [CallOption 100 (475 / 100) ''2024-12-31''], observers = [7, 8]\<rparr>)] \<and>
   count_list (map (\<lambda>call. case call of Update observer out \<Rightarrow> observer)
     (snd (snd (updateOptionPrices
       \<lparr>options = [CallOption 100 5 ''2024-12-31''], observers = [7, 8]\<rparr> (\<lambda>i. 0))))) 7 = 1 \<and>
   count_list (map (\<lambda>call. case call of Update observer out \<Rightarrow> observer)
     (snd (snd (updateOptionPrices
       \<lparr>options = [CallOption 100 5 ''2024-12-31''], observers = [7, 8]\<rparr> (\<lambda>i. 0))))) 8 = 1"
proof -
  let ?c = "\<lparr>options = [CallOption 100 5 ''2024-12-31''], observers = [7, 8]\<rparr>"
  have d: "distinct (observers ?c)" by simp
  have new: "fst (updateOptionPrices ?c (\<lambda>i. 0)) =
      \<lparr>options = [CallOption 100 (475 / 100) ''2024-12-31''], observers = [7, 8]\<rparr>"
    by (simp add: updateOptionPrices_def rand_def c_rem_def Let_def)
  from updateOptionPrices_notifies [of ?c "\<lambda>i. 0"] d new show ?thesis by simp
qed

text \<open>
  C10. On a chain with no option the update changes neither the chain nor the state of
  \<open>rand()\<close>, and still calls \<open>update()\<close> once on each observer; the display then
  shows no quote.
\<close>

theorem updateOptionPrices_empty:
  "options chain = [] \<Longrightarrow>
   updateOptionPrices chain g =
     (chain, g, map (\<lambda>observer. Update observer (update chain)) (observers chain)) \<and>
   displaySingleQuote chain = []"
proof -
  assume e: "options chain = []"
  have same: "chain\<lparr>options := []\<rparr> = chain"
    using e by (cases chain) simp
  show ?thesis
    using e by (simp add: updateOptionPrices_def notifyObservers_def notify_loop_map
        displaySingleQuote_def same)
qed

text \<open>
  With two observers and no option.
\<close>

theorem updateOptionPrices_empty_witness:
  "updateOptionPrices \<lparr>options = [], observers = [7, 8]\<rparr> (\<lambda>i. i) =
     (\<lparr>options = [], observers = [7, 8]\<rparr>, \<lambda>i. i,
      [Update 7 (update \<lparr>options = [], observers = [7, 8]\<rparr>),
       Update 8 (update \<lparr>options = [], observers = [7, 8]\<rparr>)])"
  using updateOptionPrices_empty [of "\<lparr>options = [], observers = [7, 8]\<rparr>" "\<lambda>i. i"]
  by simp

section \<open>Insertion order and the first quote\<close>

lemma options_addOption2:
  "options (addOption (addOption chain a) b) = options chain @ [a, b]"
  by (simp add: addOption_def)

text \<open>
  C5, amended. The chain keeps the order of insertion and \<open>displaySingleQuote\<close>
  shows the option added first: after adding \<open>a\<close> and then \<open>b\<close> to an empty chain it
  shows \<open>a\<close>, after adding them to a chain that has options it shows the first of
  those, as before; on an empty chain it shows nothing.
\<close>

theorem displaySingleQuote_first:
  "options (addOption (addOption chain a) b) = options chain @ [a, b] \<and>
   (options chain = [] \<longrightarrow>
      displaySingleQuote chain = [] \<and>
      displaySingleQuote (addOption (addOption chain a) b) = displayInfo a) \<and>
   (options chain \<noteq> [] \<longrightarrow>
      displaySingleQuote chain = displayInfo (options chain ! 0) \<and>
      displaySingleQuote (addOption (addOption chain a) b) = displayInfo (options chain ! 0))"
  by (simp add: displaySingleQuote_def options_addOption2 nth_append)

text \<open>
  Adding a call and then a put to the empty chain.
\<close>

theorem displaySingleQuote_first_witness:
  "displaySingleQuote \<lparr>options = [], observers = [1]\<rparr> = [] \<and>
   displaySingleQuote
     (addOption (addOption \<lparr>options = [], observers = [1]\<rparr> (CallOption 100 5 ''2024-12-31''))
        (PutOption 100 4 ''2024-12-31'')) =
   displayInfo (CallOption 100 5 ''2024-12-31'')"
  using displaySingleQuote_first [of "\<lparr>options = [], observers = [1]\<rparr>"
      "CallOption 100 5 ''2024-12-31''" "PutOption 100 4 ''2024-12-31''"]
  by simp

text \<open>
  On a chain that holds a put already, after adding the call \<open>a\<close> and then another
  call, the quote is the put, not \<open>a\<close>.
\<close>

theorem displaySingleQuote_first_counterexample:
  "displaySingleQuote
     (addOption (addOption \<lparr>options = [PutOption 100 4 ''2024-12-31''], observers = []\<rparr>
        (CallOption 100 5 ''2024-12-31'')) (CallOption 110 3 ''2024-12-31'')) =
   displayInfo (PutOption 100 4 ''2024-12-31'') \<and>
   displaySingleQuote
     (addOption (addOption \<lparr>options = [PutOption 100 4 ''2024-12-31''], observers = []\<rparr>
        (CallOption 100 5 ''2024-12-31'')) (CallOption 110 3 ''2024-12-31'')) \<noteq>
   displayInfo (CallOption 100 5 ''2024-12-31'')"
  by (simp add: displaySingleQuote_def addOption_def)

section \<open>Entering a trade\<close>

text \<open>
  C7. When the tag read is neither \<open>"Call"\<close> nor \<open>"Put"\<close> the factory returns the
  null pointer, and \<open>execute\<close> leaves the chain as it was and writes
  \<open>"Invalid option type. Trade not executed."\<close> after its prompts.
\<close>

theorem execute_invalid_type:
  "optionType \<noteq> ''Call'' \<Longrightarrow> optionType \<noteq> ''Put'' \<Longrightarrow>
   createOption optionType strikePrice premium expiry = None \<and>
   execute chain optionType strikePrice premium expiry quantity =
     (chain, execute_prompts @ [Str ''Invalid option type. Trade not executed.'', Endl])"
  by (simp add: execute_def createOption_def)

text \<open>
  With the tag \<open>"Straddle"\<close>.
\<close>

theorem execute_invalid_type_witness:
  "execute \<lparr>options = [CallOption 100 5 ''2024-12-31''], observers = [1]\<rparr>
     ''Straddle'' 100 5 ''2024-12-31'' 3 =
   (\<lparr>options = [CallOption 100 5 ''2024-12-31''], observers = [1]\<rparr>,
    execute_prompts @ [Str ''Invalid option type. Trade not executed.'', Endl])"
  using execute_invalid_type [of "''Straddle''" 100 5 "''2024-12-31''"
      "\<lparr>options = [CallOption 100 5 ''2024-12-31''], observers = [1]\<rparr>" 3]
  by simp

section \<open>What the update leaves unchanged\<close>

lemma map_loop_frame:
  "map (\<lambda>option. setPremium option 0) (fst (updateOptionPrices_loop xs g)) =
   map (\<lambda>option. setPremium option 0) xs"
proof (rule nth_equalityI)
  show "length (map (\<lambda>option. setPremium option 0) (fst (updateOptionPrices_loop xs g))) =
        length (map (\<lambda>option. setPremium option 0) xs)"
    by (simp add: loop_length)
next
  fix i
  assume "i < length (map (\<lambda>option. setPremium option 0) (fst (updateOptionPrices_loop xs g)))"
  then have i: "i < length xs" by (simp add: loop_length)
  have "setPremium (setPremium (xs ! i) p) 0 = setPremium (xs ! i) 0" for p
    by (cases "xs ! i") simp_all
  with i show "map (\<lambda>option. setPremium option 0) (fst (updateOptionPrices_loop xs g)) ! i =
        map (\<lambda>option. setPremium option 0) xs ! i"
    by (simp add: loop_length loop_nth)
qed

lemma setPremium_frame:
  "setPremium a 0 = setPremium b 0 \<Longrightarrow>
   getStrikePrice a = getStrikePrice b \<and> getExpiryDate a = getExpiryDate b"
  by (cases a; cases b) simp_all

text \<open>
  C9. The update keeps the number and the order of the options, and at every position
  the strike price and the expiry date; the options before and after differ in nothing
  but the premium (they are equal once both premiums are set to 0). The observer list is
  unchanged.
\<close>

theorem updateOptionPrices_frame:
  "length (options (fst (updateOptionPrices chain g))) = length (options chain) \<and>
   map getStrikePrice (options (fst (updateOptionPrices chain g))) =
     map getStrikePrice (options chain) \<and>
   map getExpiryDate (options (fst (updateOptionPrices chain g))) =
     map getExpiryDate (options chain) \<and>
   map (\<lambda>option. setPremium option 0) (options (fst (updateOptionPrices chain g))) =
     map (\<lambda>option. setPremium option 0) (options chain) \<and>
   observers (fst (updateOptionPrices chain g)) = observers chain"
proof -
  let ?new = "options (fst (updateOptionPrices chain g))"
  have len: "length ?new = length (options chain)"
    by (rule length_updateOptionPrices)
  have fr: "map (\<lambda>option. setPremium option 0) ?new =
      map (\<lambda>option. setPremium option 0) (options chain)"
    by (simp add: options_updateOptionPrices map_loop_frame)
  have nth: "getStrikePrice (?new ! i) = getStrikePrice (options chain ! i) \<and>
      getExpiryDate (?new ! i) = getExpiryDate (options chain ! i)"
    if "i < length (options chain)" for i
    using that by (simp add: nth_updateOptionPrices getStrikePrice_setPremium
        getExpiryDate_setPremium)
  have st: "map getStrikePrice ?new = map getStrikePrice (options chain)"
    by (rule nth_equalityI) (simp_all add: len nth)
  have ex: "map getExpiryDate ?new = map getExpiryDate (options chain)"
    by (rule nth_equalityI) (simp_all add: len nth)
  from len st ex fr observers_updateOptionPrices [of chain g] show ?thesis by blast
qed

end
